theory Spec2Isabelle
  imports Main "HOL-Library.Char_ord" "HOL-Library.List_Lexorder"
begin

section \<open>Data model\<close>

text \<open>
  The hall booking board keeps a list of bookings (\<^verbatim>\<open>Booking[]\<close>) in the state of
  \<^verbatim>\<open>App\<close>. A booking has an id, a hall, a date and two time-of-day labels, plus two
  free-text fields. JavaScript compares strings code unit by code unit; on lists of
  characters that is the lexicographic order of \<open>List_Lexorder\<close> over the character
  order of \<open>Char_ord\<close>.

  The form of the booking dialog hands \<^verbatim>\<open>handleSaveBooking\<close> a value of type
  \<^verbatim>\<open>Omit<Booking, 'id' | 'hallId'>\<close>; it is the record \<open>BookingData\<close>, and \<open>Booking\<close>
  extends it by the two omitted fields, so that the object spread
  \<^verbatim>\<open>{ ...bookingToEdit, ...bookingData }\<close> is an update of the five shared fields.
  The fields \<^verbatim>\<open>id\<close> and \<^verbatim>\<open>notes\<close> are named \<open>idB\<close> and \<open>notesB\<close> here: \<open>id\<close> is the
  identity function of HOL and \<open>notes\<close> is a keyword of Isabelle.
\<close>

datatype Hall = AlWaha | AlDana

record BookingData =
  date :: string
  time :: string
  endTime :: string
  department :: string
  notesB :: string

record Booking = BookingData +
  idB :: string
  hallId :: Hall

text \<open>The object spread \<^verbatim>\<open>{ ...b, ...bookingData }\<close> of line 125 of \<^verbatim>\<open>App.tsx\<close>.\<close>

definition spread :: "Booking \<Rightarrow> BookingData \<Rightarrow> Booking" where
  "spread b bookingData =
     b\<lparr>date := date bookingData, time := time bookingData, endTime := endTime bookingData,
       department := department bookingData, notesB := notesB bookingData\<rparr>"

section \<open>The slot grid\<close>

text \<open>\<^verbatim>\<open>timeSlots\<close>, line 221 of \<^verbatim>\<open>App.tsx\<close>.\<close>

definition timeSlots :: "string list" where
  "timeSlots = [''07:30'', ''08:00'', ''09:00'', ''10:00'', ''11:00'', ''12:00'',
                ''13:00'', ''14:00'', ''15:00'', ''16:00'', ''17:00'', ''18:00'']"

text \<open>\<^verbatim>\<open>timeSlots.slice(0, -1)\<close>: the grid without its last label; empty for an empty grid.\<close>

definition displayTimeSlots :: "string list \<Rightarrow> string list" where
  "displayTimeSlots ts = butlast ts"

text \<open>
  \<^verbatim>\<open>Array.prototype.indexOf\<close>: the position of the first element equal to \<open>x\<close>, or
  \<open>-1\<close> when there is none.
\<close>

fun indexOf :: "'a list \<Rightarrow> 'a \<Rightarrow> int" where
  "indexOf [] x = - 1"
| "indexOf (y # ys) x =
     (if y = x then 0 else (let r = indexOf ys x in if r = - 1 then - 1 else r + 1))"

section \<open>The conflict check\<close>

text \<open>
  The predicate of \<^verbatim>\<open>bookings.some(...)\<close> in \<^verbatim>\<open>handleSaveBooking\<close> (lines 108 to 117), with
  the three values it closes over as arguments: the booking being edited, if any, the
  hall the save is for, and the data of the form.
\<close>

definition conflictsWith :: "Booking option \<Rightarrow> Hall \<Rightarrow> BookingData \<Rightarrow> Booking \<Rightarrow> bool" where
  "conflictsWith bookingToEdit currentHall bookingData b =
     (if (case bookingToEdit of Some e \<Rightarrow> idB b = idB e | None \<Rightarrow> False) then False
      else if hallId b = currentHall \<and> date b = date bookingData
        then time bookingData < endTime b \<and> endTime bookingData > time b
      else False)"

definition hasConflict :: "Booking list \<Rightarrow> Booking option \<Rightarrow> Hall \<Rightarrow> BookingData \<Rightarrow> bool" where
  "hasConflict bookings bookingToEdit currentHall bookingData =
     list_ex (conflictsWith bookingToEdit currentHall bookingData) bookings"

section \<open>Saving, editing and deleting bookings\<close>

text \<open>
  The part of the state of \<^verbatim>\<open>App\<close> that the handlers read and write. A \<^verbatim>\<open>Date\<close> object
  is represented by its local calendar date; the month is counted from 0, as
  \<^verbatim>\<open>getMonth\<close> does.
\<close>

record JSDate =
  fullYear :: int
  monthIx :: nat
  dayOfMonth :: nat

record ModalInfo =
  isOpen :: bool
  bookingToEdit :: "Booking option"
  modalDate :: "JSDate option"
  modalTime :: "string option"

record AppState =
  bookings :: "Booking list"
  selectedHall :: Hall
  modalInfo :: ModalInfo
  hasUnsavedChanges :: bool

text \<open>The \<^verbatim>\<open>Error\<close> thrown at line 120; its message is a fixed text for the user.\<close>

datatype error = BookingConflict

definition handleCellClick :: "AppState \<Rightarrow> JSDate \<Rightarrow> string \<Rightarrow> AppState" where
  "handleCellClick st d t =
     st\<lparr>modalInfo := \<lparr>isOpen = True, bookingToEdit = None, modalDate = Some d, modalTime = Some t\<rparr>\<rparr>"

definition handleBookingClick :: "AppState \<Rightarrow> string \<Rightarrow> AppState" where
  "handleBookingClick st bookingId =
     (case find (\<lambda>b. idB b = bookingId) (bookings st) of
        Some b \<Rightarrow> st\<lparr>modalInfo := \<lparr>isOpen = True, bookingToEdit = Some b,
                                   modalDate = None, modalTime = None\<rparr>\<rparr>
      | None \<Rightarrow> st)"

definition handleCloseModal :: "AppState \<Rightarrow> AppState" where
  "handleCloseModal st =
     st\<lparr>modalInfo := \<lparr>isOpen = False, bookingToEdit = None, modalDate = None, modalTime = None\<rparr>\<rparr>"

definition currentHallOf :: "AppState \<Rightarrow> Hall" where
  "currentHallOf st =
     (case bookingToEdit (modalInfo st) of Some e \<Rightarrow> hallId e | None \<Rightarrow> selectedHall st)"

text \<open>
  The list that lines 123 to 134 hand to \<^verbatim>\<open>setBookings\<close>. The id of a new booking is
  \<^verbatim>\<open>new Date().toISOString()\<close>, a reading of the clock: the argument \<open>nowIso\<close>.
\<close>

definition bookingsAfterSave :: "AppState \<Rightarrow> string \<Rightarrow> BookingData \<Rightarrow> Booking list" where
  "bookingsAfterSave st nowIso bookingData =
     (case bookingToEdit (modalInfo st) of
        Some e \<Rightarrow> map (\<lambda>b. if idB b = idB e then spread e bookingData else b) (bookings st)
      | None \<Rightarrow>
          bookings st @
            [\<lparr>date = date bookingData, time = time bookingData, endTime = endTime bookingData,
              department = department bookingData, notesB = notesB bookingData,
              idB = nowIso, hallId = selectedHall st\<rparr>])"

text \<open>
  \<^verbatim>\<open>handleSaveBooking\<close> (lines 105 to 137). The exception leaves the handler before any
  setter has run, so the state that comes with the error is the state of the call.
\<close>

definition handleSaveBooking ::
  "AppState \<Rightarrow> string \<Rightarrow> BookingData \<Rightarrow> (error + unit) \<times> AppState" where
  "handleSaveBooking st nowIso bookingData =
     (if hasConflict (bookings st) (bookingToEdit (modalInfo st)) (currentHallOf st) bookingData
      then (Inl BookingConflict, st)
      else (Inr (),
            handleCloseModal
              (st\<lparr>bookings := bookingsAfterSave st nowIso bookingData, hasUnsavedChanges := True\<rparr>)))"

definition handleDeleteBooking :: "AppState \<Rightarrow> AppState" where
  "handleDeleteBooking st =
     (case bookingToEdit (modalInfo st) of
        Some e \<Rightarrow>
          handleCloseModal
            (st\<lparr>bookings := filter (\<lambda>b. idB b \<noteq> idB e) (bookings st), hasUnsavedChanges := True\<rparr>)
      | None \<Rightarrow> st)"

text \<open>
  The invariant the conflict check is there to keep: two different bookings of one hall
  and one date do not overlap as half-open intervals.
\<close>

definition overlap :: "Booking \<Rightarrow> Booking \<Rightarrow> bool" where
  "overlap a b = (time a < endTime b \<and> endTime a > time b)"

definition noOverlap :: "Booking list \<Rightarrow> bool" where
  "noOverlap bs =
     (\<forall>a \<in> set bs. \<forall>b \<in> set bs.
        a \<noteq> b \<and> hallId a = hallId b \<and> date a = date b \<longrightarrow> \<not> overlap a b)"

section \<open>The row of the on-screen grid\<close>

text \<open>
  \<^verbatim>\<open>ScheduleTable\<close> receives the bookings of the selected hall and groups them by date
  (\<^verbatim>\<open>bookingsByDate\<close>, the \<^verbatim>\<open>reduce\<close> of lines 73 to 78). The accumulator is a plain
  object \<^verbatim>\<open>{}\<close>, so a lookup of one of the property names it inherits from
  \<^verbatim>\<open>Object.prototype\<close> does not give \<open>undefined\<close> but the inherited value, which is
  truthy and is not an array.
\<close>

definition objectPrototypeKeys :: "string list" where
  "objectPrototypeKeys =
     [''constructor'', ''__proto__'', ''hasOwnProperty'', ''isPrototypeOf'',
      ''propertyIsEnumerable'', ''toLocaleString'', ''toString'', ''valueOf'',
      ''__defineGetter__'', ''__defineSetter__'', ''__lookupGetter__'', ''__lookupSetter__'']"

text \<open>The \<^verbatim>\<open>TypeError\<close> of calling a method that the value does not have.\<close>

datatype RenderError = TypeError

text \<open>
  One step of the \<^verbatim>\<open>reduce\<close> is \<^verbatim>\<open>(acc[booking.date] = acc[booking.date] || []).push(booking)\<close>.
  For a date that is an inherited property name the left operand of \<^verbatim>\<open>||\<close> is the
  inherited value, which has no \<^verbatim>\<open>push\<close>: the call throws, and with it the render.
  Otherwise the booking is appended to the list of its date. The map holds the own
  properties of the accumulator.
\<close>

fun bookingsByDateFrom ::
  "(string \<rightharpoonup> Booking list) \<Rightarrow> Booking list \<Rightarrow> RenderError + (string \<rightharpoonup> Booking list)" where
  "bookingsByDateFrom acc [] = Inr acc"
| "bookingsByDateFrom acc (booking # bs) =
     (if date booking \<in> set objectPrototypeKeys then Inl TypeError
      else bookingsByDateFrom
             (acc(date booking \<mapsto>
                    (case acc (date booking) of Some xs \<Rightarrow> xs | None \<Rightarrow> []) @ [booking]))
             bs)"

definition bookingsByDate :: "Booking list \<Rightarrow> RenderError + (string \<rightharpoonup> Booking list)" where
  "bookingsByDate bs = bookingsByDateFrom Map.empty bs"

text \<open>
  \<^verbatim>\<open>bookingsByDate[formattedDate] || []\<close> (line 114): a day without an entry has the empty
  list. For a \<open>formattedDate\<close> that is an inherited property name the value is not an
  array, and \<^verbatim>\<open>allDayBookings.map\<close> of the next line throws.
\<close>

definition allDayBookings :: "Booking list \<Rightarrow> string \<Rightarrow> RenderError + Booking list" where
  "allDayBookings bs formattedDate =
     (case bookingsByDate bs of
        Inl err \<Rightarrow> Inl err
      | Inr byDate \<Rightarrow>
          (if formattedDate \<in> set objectPrototypeKeys then Inl TypeError
           else Inr (case byDate formattedDate of Some xs \<Rightarrow> xs | None \<Rightarrow> [])))"

text \<open>
  The cells one row of the table gets for the slot columns: an \<^verbatim>\<open>EmptyCell\<close> carries the
  label of its slot (it opens the dialog for that slot when clicked), the cell of a
  booking carries the booking and its \<^verbatim>\<open>colSpan\<close>. The colour of a booking's cell is
  presentation and is left out.
\<close>

datatype Cell = EmptyCell string | BookingCell Booking nat

fun colSpan :: "Cell \<Rightarrow> nat" where
  "colSpan (EmptyCell t) = 1"
| "colSpan (BookingCell b n) = n"

text \<open>
  The loop of lines 129 to 159 of \<^verbatim>\<open>ScheduleTable\<close>, from slot index \<open>i\<close> on. The index
  stays below the length of \<open>displayTimeSlots\<close>, so \<^verbatim>\<open>timeSlots[i]\<close> is always in range.
\<close>

function rowCells :: "string list \<Rightarrow> Booking list \<Rightarrow> nat \<Rightarrow> Cell list" where
  "rowCells ts dayBookings i =
     (if i < length (displayTimeSlots ts) then
        (case find (\<lambda>b. time b = ts ! i) dayBookings of
           Some booking \<Rightarrow>
             (if indexOf ts (endTime booking) > int i
              then BookingCell booking (nat (indexOf ts (endTime booking) - int i)) #
                   rowCells ts dayBookings (i + nat (indexOf ts (endTime booking) - int i))
              else EmptyCell (ts ! i) # rowCells ts dayBookings (i + 1))
         | None \<Rightarrow> EmptyCell (ts ! i) # rowCells ts dayBookings (i + 1))
      else [])"
  by pat_completeness auto
termination
  by (relation "measure (\<lambda>(ts, dayBookings, i). length (displayTimeSlots ts) - i)") auto

text \<open>The table columns each cell of a row takes, the first cell starting at column \<open>c\<close>.\<close>

fun cellColumns :: "nat \<Rightarrow> Cell list \<Rightarrow> nat list list" where
  "cellColumns c [] = []"
| "cellColumns c (x # xs) = [c ..< c + colSpan x] # cellColumns (c + colSpan x) xs"

section \<open>The row of the spreadsheet export\<close>

text \<open>
  A value of a sheet cell (\<^verbatim>\<open>string | number | null\<close>) and a merge region
  (\<^verbatim>\<open>XLSX.Range\<close>, \<^verbatim>\<open>{ s: { r, c }, e: { r, c } }\<close>).
\<close>

datatype SheetValue = SStr string | SNum int | SNull

record CellAddress =
  rowIx :: nat
  colIx :: nat

record Range =
  startCell :: CellAddress
  endCell :: CellAddress

text \<open>
  The span of a booking in the export (lines 332 to 334): both indices are looked up
  in the grid, and a booking whose end is not after its start takes one column.
\<close>

definition exportSpan :: "string list \<Rightarrow> Booking \<Rightarrow> nat" where
  "exportSpan ts booking =
     (let startTimeIndex = indexOf ts (time booking);
          endTimeIndex = indexOf ts (endTime booking)
      in if endTimeIndex > startTimeIndex then nat (endTimeIndex - startTimeIndex) else 1)"

text \<open>
  The loop of lines 327 to 353 of \<^verbatim>\<open>handleExportToExcel\<close>, from slot index \<open>i\<close> on, for
  the sheet row \<open>rowIndex\<close>: the values it pushes onto the row and the regions it pushes
  onto \<^verbatim>\<open>merges\<close>.
\<close>

function exportSlots ::
  "string list \<Rightarrow> Booking list \<Rightarrow> nat \<Rightarrow> nat \<Rightarrow> SheetValue list \<times> Range list" where
  "exportSlots ts dayBookings rowIndex i =
     (if i < length (displayTimeSlots ts) then
        (case find (\<lambda>b. time b = ts ! i) dayBookings of
           Some booking \<Rightarrow>
             (let span = exportSpan ts booking;
                  rest = exportSlots ts dayBookings rowIndex (i + span)
              in (SStr (department booking) # replicate (span - 1) SNull @ fst rest,
                  (if span > 1
                   then [\<lparr>startCell = \<lparr>rowIx = rowIndex, colIx = 3 + i\<rparr>,
                          endCell = \<lparr>rowIx = rowIndex, colIx = 3 + i + span - 1\<rparr>\<rparr>]
                   else []) @ snd rest))
         | None \<Rightarrow>
             (let rest = exportSlots ts dayBookings rowIndex (i + 1)
              in (SStr [] # fst rest, snd rest)))
      else ([], []))"
  by pat_completeness auto
termination
  by (relation "measure (\<lambda>(ts, dayBookings, rowIndex, i). length (displayTimeSlots ts) - i)")
     (auto simp: exportSpan_def Let_def intro: diff_less_mono2)

text \<open>
  The bookings of one day, as the export selects them (lines 313 and 318): those of
  the selected hall, then those of the date.
\<close>

definition dayBookings :: "Booking list \<Rightarrow> Hall \<Rightarrow> string \<Rightarrow> Booking list" where
  "dayBookings bs hall formattedDate =
     filter (\<lambda>b. date b = formattedDate) (filter (\<lambda>b. hallId b = hall) bs)"

text \<open>
  What a row of table cells is as sheet values and merge regions: an empty cell is an
  empty string, the cell of a booking is its department followed by \<open>null\<close> for each
  further column it spans, merged when it spans more than one. It is the yardstick
  for comparing the grid with the export.
\<close>

fun cellsAsSheet :: "nat \<Rightarrow> nat \<Rightarrow> Cell list \<Rightarrow> SheetValue list \<times> Range list" where
  "cellsAsSheet rowIndex i [] = ([], [])"
| "cellsAsSheet rowIndex i (EmptyCell t # xs) =
     (let rest = cellsAsSheet rowIndex (i + 1) xs in (SStr [] # fst rest, snd rest))"
| "cellsAsSheet rowIndex i (BookingCell b n # xs) =
     (let rest = cellsAsSheet rowIndex (i + n) xs
      in (SStr (department b) # replicate (n - 1) SNull @ fst rest,
          (if n > 1
           then [\<lparr>startCell = \<lparr>rowIx = rowIndex, colIx = 3 + i\<rparr>,
                  endCell = \<lparr>rowIx = rowIndex, colIx = 3 + i + n - 1\<rparr>\<rparr>]
           else []) @ snd rest))"

section \<open>Loading the bookings\<close>

text \<open>
  The calendar behind \<^verbatim>\<open>Date.prototype.setDate\<close>: a day of the month beyond the end of
  the month rolls over into the following months, and day 0 is the last day of the
  month before.
\<close>

definition isLeapYear :: "int \<Rightarrow> bool" where
  "isLeapYear y = (y mod 4 = 0 \<and> (y mod 100 \<noteq> 0 \<or> y mod 400 = 0))"

definition daysInMonthOf :: "int \<Rightarrow> nat \<Rightarrow> nat" where
  "daysInMonthOf y m =
     (if m = 1 then (if isLeapYear y then 29 else 28)
      else if m = 3 \<or> m = 5 \<or> m = 8 \<or> m = 10 then 30 else 31)"

function rollOver :: "int \<Rightarrow> nat \<Rightarrow> nat \<Rightarrow> JSDate" where
  "rollOver y m n =
     (if n > daysInMonthOf y m
      then (if m \<ge> 11 then rollOver (y + 1) 0 (n - daysInMonthOf y m)
            else rollOver y (m + 1) (n - daysInMonthOf y m))
      else \<lparr>fullYear = y, monthIx = m, dayOfMonth = n\<rparr>)"
  by pat_completeness auto
termination
  by (relation "measure (\<lambda>(y, m, n). n)") (auto simp: daysInMonthOf_def)

declare rollOver.simps [simp del]

definition getDate :: "JSDate \<Rightarrow> nat" where
  "getDate d = dayOfMonth d"

definition setDate :: "JSDate \<Rightarrow> nat \<Rightarrow> JSDate" where
  "setDate d n =
     (if n = 0
      then (if monthIx d = 0
            then \<lparr>fullYear = fullYear d - 1, monthIx = 11, dayOfMonth = 31\<rparr>
            else \<lparr>fullYear = fullYear d, monthIx = monthIx d - 1,
                  dayOfMonth = daysInMonthOf (fullYear d) (monthIx d - 1)\<rparr>)
      else rollOver (fullYear d) (monthIx d) n)"

text \<open>
  The calendar itself, to say what the dates of the seed are: a date of the calendar,
  the day after it, and the number of a day within its year.
\<close>

definition validDate :: "JSDate \<Rightarrow> bool" where
  "validDate d =
     (monthIx d < 12 \<and> 1 \<le> dayOfMonth d \<and>
      dayOfMonth d \<le> daysInMonthOf (fullYear d) (monthIx d))"

definition nextDay :: "JSDate \<Rightarrow> JSDate" where
  "nextDay d =
     (if dayOfMonth d < daysInMonthOf (fullYear d) (monthIx d)
      then \<lparr>fullYear = fullYear d, monthIx = monthIx d, dayOfMonth = dayOfMonth d + 1\<rparr>
      else if monthIx d < 11
      then \<lparr>fullYear = fullYear d, monthIx = monthIx d + 1, dayOfMonth = 1\<rparr>
      else \<lparr>fullYear = fullYear d + 1, monthIx = 0, dayOfMonth = 1\<rparr>)"

definition dayOfYear :: "JSDate \<Rightarrow> nat" where
  "dayOfYear d = sum_list (map (daysInMonthOf (fullYear d)) [0 ..< monthIx d]) + dayOfMonth d"

definition daysInYear :: "int \<Rightarrow> nat" where
  "daysInYear y = (if isLeapYear y then 366 else 365)"

text \<open>
  Modelled from the spec: \<^verbatim>\<open>formatToYYYYMMDD\<close> of \<^verbatim>\<open>utils/dateUtils\<close>, which is not among
  the sources. The spec gives the format of a booking's date: \<^verbatim>\<open>YYYY-MM-DD\<close>, no
  timezone component. The functions below take the formatter as an argument;
  this one stands in for it where a concrete date string is computed.
\<close>

definition digit :: "nat \<Rightarrow> char" where
  "digit n = ''0123456789'' ! (n mod 10)"

definition pad2 :: "nat \<Rightarrow> string" where
  "pad2 n = [digit (n div 10), digit n]"

definition formatToYYYYMMDD :: "JSDate \<Rightarrow> string" where
  "formatToYYYYMMDD d =
     pad2 (nat (fullYear d) div 100) @ pad2 (nat (fullYear d)) @ ''-'' @
     pad2 (monthIx d + 1) @ ''-'' @ pad2 (dayOfMonth d)"

text \<open>
  The department and the note of the three seed bookings are fixed display texts
  (lines 25 to 44); they are carried as they are, in a record.
\<close>

record SeedTexts =
  department1 :: string
  notes1 :: string
  department2 :: string
  notes2 :: string
  department3 :: string
  notes3 :: string

text \<open>
  \<^verbatim>\<open>generateInitialBookings\<close> (lines 11 to 47). It reads the clock three times
  (\<^verbatim>\<open>new Date()\<close>): the arguments \<open>now0\<close>, \<open>now1\<close> and \<open>now2\<close>. \<open>fmt\<close> is
  \<^verbatim>\<open>formatToYYYYMMDD\<close>.
\<close>

definition generateInitialBookings ::
  "(JSDate \<Rightarrow> string) \<Rightarrow> SeedTexts \<Rightarrow> JSDate \<Rightarrow> JSDate \<Rightarrow> JSDate \<Rightarrow> Booking list" where
  "generateInitialBookings fmt texts now0 now1 now2 =
     (let today = now0;
          tomorrow = setDate now1 (getDate today + 1);
          dayAfter = setDate now2 (getDate today + 2)
      in [\<lparr>date = fmt today, time = ''09:00'', endTime = ''11:00'',
            department = department1 texts, notesB = notes1 texts,
            idB = ''1'', hallId = AlWaha\<rparr>,
          \<lparr>date = fmt tomorrow, time = ''11:00'', endTime = ''12:00'',
            department = department2 texts, notesB = notes2 texts,
            idB = ''2'', hallId = AlWaha\<rparr>,
          \<lparr>date = fmt dayAfter, time = ''14:00'', endTime = ''16:00'',
            department = department3 texts, notesB = notes3 texts,
            idB = ''3'', hallId = AlDana\<rparr>])"

text \<open>
  What \<^verbatim>\<open>localStorage.getItem('hallBookings')\<close> can do: throw, return \<open>null\<close>, or return
  the stored string.
\<close>

datatype StorageRead = ReadThrows | Absent | Stored string

text \<open>
  The initialiser of the \<open>bookings\<close> state (lines 55 to 63). \<open>parse\<close> is
  \<^verbatim>\<open>JSON.parse\<close>, with \<open>None\<close> when it throws; the empty string is falsy, so it is
  treated as absent. Every path returns a list of bookings: nothing is thrown on.
\<close>

definition loadBookings ::
  "(string \<Rightarrow> Booking list option) \<Rightarrow> (JSDate \<Rightarrow> string) \<Rightarrow> SeedTexts \<Rightarrow>
   JSDate \<Rightarrow> JSDate \<Rightarrow> JSDate \<Rightarrow> StorageRead \<Rightarrow> Booking list" where
  "loadBookings parse fmt texts now0 now1 now2 r =
     (case r of
        ReadThrows \<Rightarrow> generateInitialBookings fmt texts now0 now1 now2
      | Absent \<Rightarrow> generateInitialBookings fmt texts now0 now1 now2
      | Stored savedBookings \<Rightarrow>
          (if savedBookings = [] then generateInitialBookings fmt texts now0 now1 now2
           else (case parse savedBookings of
                   Some bs \<Rightarrow> bs
                 | None \<Rightarrow> generateInitialBookings fmt texts now0 now1 now2)))"

section \<open>Properties of \<open>indexOf\<close>\<close>

lemma indexOf_ge: "- 1 \<le> indexOf xs x"
  by (induction xs) (auto simp: Let_def)

lemma indexOf_lt: "indexOf xs x < int (length xs)"
  by (induction xs) (auto simp: Let_def)

lemma indexOf_neg_iff: "indexOf xs x = - 1 \<longleftrightarrow> x \<notin> set xs"
proof (induction xs)
  case Nil
  show ?case by simp
next
  case (Cons y ys)
  have "- 1 \<le> indexOf ys x" by (rule indexOf_ge)
  with Cons show ?case by (auto simp: Let_def)
qed

lemma indexOf_nth_distinct:
  "distinct xs \<Longrightarrow> i < length xs \<Longrightarrow> indexOf xs (xs ! i) = int i"
proof (induction xs arbitrary: i)
  case Nil
  then show ?case by simp
next
  case (Cons y ys)
  show ?case
  proof (cases i)
    case 0
    then show ?thesis by simp
  next
    case (Suc k)
    with Cons.prems have k: "k < length ys" and d: "distinct ys" and ny: "y \<notin> set ys"
      by auto
    from k ny have "ys ! k \<noteq> y" by (metis nth_mem)
    moreover have "indexOf ys (ys ! k) = int k" using Cons.IH [OF d k] .
    ultimately show ?thesis using Suc by (simp add: Let_def)
  qed
qed

section \<open>Properties of the conflict check\<close>

lemma conflictsWith_iff:
  "conflictsWith ed h d b =
     ((\<forall>e. ed = Some e \<longrightarrow> idB b \<noteq> idB e) \<and> hallId b = h \<and> date b = date d \<and>
      time d < endTime b \<and> endTime d > time b)"
  by (cases ed) (auto simp: conflictsWith_def)

text \<open>
  Claim C2. The conflict check answers true exactly when some existing booking that is
  not the one being edited has the hall and the date of the candidate and satisfies
  \<open>candidate.time < other.endTime\<close> and \<open>candidate.endTime > other.time\<close>. A candidate
  that only touches a booking (its end is the other's start, or its start is the
  other's end) is not in conflict with it.
\<close>

theorem hasConflict_iff_overlap:
  "hasConflict bs ed h d =
     (\<exists>b \<in> set bs. (\<forall>e. ed = Some e \<longrightarrow> idB b \<noteq> idB e) \<and> hallId b = h \<and> date b = date d \<and>
                    time d < endTime b \<and> endTime d > time b)
   \<and> (endTime d = time b' \<or> time d = endTime b' \<longrightarrow> \<not> hasConflict [b'] ed h d)"
  by (auto simp: hasConflict_def list_ex_iff conflictsWith_iff)

text \<open>
  The overlapping pair and the touching pair of the spec's properties P3 and P2.
\<close>

theorem hasConflict_iff_overlap_witness:
  "hasConflict
     [\<lparr>date = ''2025-03-10'', time = ''09:00'', endTime = ''11:00'', department = ''HR'',
       notesB = [], idB = ''1'', hallId = AlWaha\<rparr>]
     None AlWaha
     \<lparr>date = ''2025-03-10'', time = ''10:00'', endTime = ''12:00'', department = ''IT'',
       notesB = []\<rparr>
   \<and> \<not> hasConflict
     [\<lparr>date = ''2025-03-10'', time = ''09:00'', endTime = ''10:00'', department = ''HR'',
       notesB = [], idB = ''1'', hallId = AlWaha\<rparr>]
     None AlWaha
     \<lparr>date = ''2025-03-10'', time = ''10:00'', endTime = ''11:00'', department = ''IT'',
       notesB = []\<rparr>"
  using hasConflict_iff_overlap
    [of "[\<lparr>date = ''2025-03-10'', time = ''09:00'', endTime = ''11:00'', department = ''HR'',
           notesB = [], idB = ''1'', hallId = AlWaha\<rparr>]"
        None AlWaha
        "\<lparr>date = ''2025-03-10'', time = ''10:00'', endTime = ''12:00'', department = ''IT'',
          notesB = []\<rparr>"]
    hasConflict_iff_overlap
    [of "[]" None AlWaha
        "\<lparr>date = ''2025-03-10'', time = ''10:00'', endTime = ''11:00'', department = ''IT'',
          notesB = []\<rparr>"
        "\<lparr>date = ''2025-03-10'', time = ''09:00'', endTime = ''10:00'', department = ''HR'',
       notesB = [], idB = ''1'', hallId = AlWaha\<rparr>"]
  by simp

text \<open>
  Claim C6. With the single existing booking \<open>x\<close>, the candidate being \<open>x\<close>'s own hall,
  date and time range, and \<open>x\<close> as the booking being edited, the conflict check answers
  false, whatever the department and the notes of the form.
\<close>

theorem hasConflict_self_excluded:
  "\<not> hasConflict [x] (Some x) (hallId x)
       \<lparr>date = date x, time = time x, endTime = endTime x, department = dep, notesB = nts\<rparr>"
  by (simp add: hasConflict_def conflictsWith_def)

section \<open>The order of the slot labels\<close>

lemma timeSlots_sorted: "sorted_wrt (<) timeSlots"
  by (simp add: timeSlots_def)

lemma timeSlots_distinct: "distinct timeSlots"
  by (simp add: timeSlots_def)

lemma timeSlots_nth_less:
  assumes "i < length timeSlots" and "j < length timeSlots"
  shows "(timeSlots ! i < timeSlots ! j) = (i < j)"
proof
  assume lt: "timeSlots ! i < timeSlots ! j"
  show "i < j"
  proof (rule ccontr)
    assume "\<not> i < j"
    then have "j = i \<or> j < i" by arith
    then show False
    proof
      assume "j = i"
      with lt show False by simp
    next
      assume "j < i"
      with timeSlots_sorted assms have "timeSlots ! j < timeSlots ! i"
        by (simp add: sorted_wrt_iff_nth_less)
      with lt show False by simp
    qed
  qed
next
  assume "i < j"
  with timeSlots_sorted assms show "timeSlots ! i < timeSlots ! j"
    by (simp add: sorted_wrt_iff_nth_less)
qed

lemma timeSlots_less_iff_indexOf:
  assumes "a \<in> set timeSlots" and "b \<in> set timeSlots"
  shows "(a < b) = (indexOf timeSlots a < indexOf timeSlots b)"
proof -
  from assms obtain i j where i: "i < length timeSlots" "timeSlots ! i = a"
    and j: "j < length timeSlots" "timeSlots ! j = b"
    by (auto simp: in_set_conv_nth)
  have "indexOf timeSlots a = int i" "indexOf timeSlots b = int j"
    using indexOf_nth_distinct [OF timeSlots_distinct] i j by auto
  with timeSlots_nth_less [OF i(1) j(1)] i j show ?thesis by simp
qed

text \<open>
  Claim C10. On the labels of the fixed slot grid, comparing two labels as strings
  gives the same answer as comparing their positions in the grid. So for a candidate
  and a booking whose times are labels of the grid, the overlap test of the conflict
  check, which compares strings, is the overlap test on slot positions.
\<close>

theorem timeSlots_string_order:
  "(\<forall>i < length timeSlots. \<forall>j < length timeSlots. (timeSlots ! i < timeSlots ! j) = (i < j)) \<and>
   (time d \<in> set timeSlots \<and> endTime d \<in> set timeSlots \<and>
    time b \<in> set timeSlots \<and> endTime b \<in> set timeSlots \<longrightarrow>
      (time d < endTime b \<and> endTime d > time b) =
      (indexOf timeSlots (time d) < indexOf timeSlots (endTime b) \<and>
       indexOf timeSlots (endTime d) > indexOf timeSlots (time b)))"
  using timeSlots_nth_less timeSlots_less_iff_indexOf by auto

text \<open>The labels at positions 2 and 4: \<open>09:00\<close> is before \<open>11:00\<close>.\<close>

theorem timeSlots_string_order_witness:
  "(2::nat) < length timeSlots \<and> (4::nat) < length timeSlots \<and>
   (timeSlots ! 2 < timeSlots ! 4) = ((2::nat) < 4) \<and> timeSlots ! 2 = ''09:00'' \<and> timeSlots ! 4 = ''11:00''"
  using timeSlots_string_order by (simp add: timeSlots_def)

section \<open>Saving keeps the bookings disjoint\<close>

lemma overlap_sym: "overlap a b = overlap b a"
  by (auto simp: overlap_def)

lemma spread_fields [simp]:
  "idB (spread e d) = idB e" "hallId (spread e d) = hallId e"
  "date (spread e d) = date d" "time (spread e d) = time d" "endTime (spread e d) = endTime d"
  by (simp_all add: spread_def)

lemma hasConflict_member:
  assumes "b \<in> set bs" and "\<forall>e. ed = Some e \<longrightarrow> idB b \<noteq> idB e"
    and "hallId b = h" and "date b = date d"
    and "time d < endTime b" and "endTime d > time b"
  shows "hasConflict bs ed h d"
  using assms by (auto simp: hasConflict_def list_ex_iff conflictsWith_iff)

lemma create_violation_is_conflict:
  assumes inv: "noOverlap (bookings st)"
    and none: "bookingToEdit (modalInfo st) = None"
    and bad: "\<not> noOverlap (bookingsAfterSave st nowIso d)"
  shows "hasConflict (bookings st) None (selectedHall st) d"
proof -
  let ?n = "\<lparr>date = date d, time = time d, endTime = endTime d, department = department d,
             notesB = notesB d, idB = nowIso, hallId = selectedHall st\<rparr>"
  have new: "bookingsAfterSave st nowIso d = bookings st @ [?n]"
    using none by (simp add: bookingsAfterSave_def)
  from bad obtain a b where in_new: "a \<in> set (bookings st @ [?n])" "b \<in> set (bookings st @ [?n])"
    and ab': "a \<noteq> b" "hallId a = hallId b" "date a = date b" "overlap a b"
    unfolding new noOverlap_def by blast
  from in_new have "a \<in> set (bookings st) \<or> a = ?n" "b \<in> set (bookings st) \<or> b = ?n"
    by auto
  note ab = this ab'
  from inv ab have "a = ?n \<or> b = ?n" unfolding noOverlap_def by blast
  then show ?thesis
  proof
    assume a: "a = ?n"
    with ab have b: "b \<in> set (bookings st)" by auto
    from a ab have "hallId b = selectedHall st" "date b = date d"
      "time d < endTime b" "endTime d > time b"
      by (auto simp: overlap_def)
    with b show ?thesis by (intro hasConflict_member [of b]) auto
  next
    assume b: "b = ?n"
    with ab have a: "a \<in> set (bookings st)" by auto
    from b ab have "hallId a = selectedHall st" "date a = date d"
      "time d < endTime a" "endTime d > time a"
      by (auto simp: overlap_def)
    with a show ?thesis by (intro hasConflict_member [of a]) auto
  qed
qed

lemma edit_violation_is_conflict:
  assumes inv: "noOverlap (bookings st)"
    and some: "bookingToEdit (modalInfo st) = Some e"
    and bad: "\<not> noOverlap (bookingsAfterSave st nowIso d)"
  shows "hasConflict (bookings st) (Some e) (hallId e) d"
proof -
  let ?u = "spread e d"
  let ?f = "\<lambda>b. if idB b = idB e then ?u else b"
  have new: "bookingsAfterSave st nowIso d = map ?f (bookings st)"
    using some by (simp add: bookingsAfterSave_def)
  have mem: "x \<in> set (map ?f (bookings st)) \<Longrightarrow>
               x = ?u \<or> (x \<in> set (bookings st) \<and> idB x \<noteq> idB e)" for x
    by auto
  from bad obtain a b where ab: "a \<in> set (map ?f (bookings st))" "b \<in> set (map ?f (bookings st))"
    "a \<noteq> b" "hallId a = hallId b" "date a = date b" "overlap a b"
    unfolding new noOverlap_def by blast
  from mem [OF ab(1)] mem [OF ab(2)] inv ab(3-6)
  have "(a = ?u \<and> b \<in> set (bookings st) \<and> idB b \<noteq> idB e) \<or>
        (b = ?u \<and> a \<in> set (bookings st) \<and> idB a \<noteq> idB e)"
    unfolding noOverlap_def by blast
  then show ?thesis
  proof
    assume h: "a = ?u \<and> b \<in> set (bookings st) \<and> idB b \<noteq> idB e"
    with ab have "hallId b = hallId e" "date b = date d"
      "time d < endTime b" "endTime d > time b"
      by (auto simp: overlap_def)
    with h show ?thesis by (intro hasConflict_member [of b]) auto
  next
    assume h: "b = ?u \<and> a \<in> set (bookings st) \<and> idB a \<noteq> idB e"
    with ab have "hallId a = hallId e" "date a = date d"
      "time d < endTime a" "endTime d > time a"
      by (auto simp: overlap_def)
    with h show ?thesis by (intro hasConflict_member [of a]) auto
  qed
qed

lemma violation_is_conflict:
  assumes "noOverlap (bookings st)" and "\<not> noOverlap (bookingsAfterSave st nowIso d)"
  shows "hasConflict (bookings st) (bookingToEdit (modalInfo st)) (currentHallOf st) d"
proof (cases "bookingToEdit (modalInfo st)")
  case None
  with create_violation_is_conflict [OF assms(1) None assms(2)] show ?thesis
    by (simp add: currentHallOf_def)
next
  case (Some e)
  with edit_violation_is_conflict [OF assms(1) Some assms(2)] show ?thesis
    by (simp add: currentHallOf_def)
qed

text \<open>
  Claim C3. When the list of bookings satisfies the disjointness invariant and the
  list a save would commit does not, \<^verbatim>\<open>handleSaveBooking\<close> throws the conflict error and
  the state is the one it was called in: the bookings, and everything else, are
  unchanged.
\<close>

theorem save_conflict_refused:
  assumes "noOverlap (bookings st)" and "\<not> noOverlap (bookingsAfterSave st nowIso d)"
  shows "handleSaveBooking st nowIso d = (Inl BookingConflict, st)"
  using violation_is_conflict [OF assms] by (simp add: handleSaveBooking_def)

text \<open>
  The scenario of the spec: one booking from 09:00 to 11:00, and an attempt to create
  another one in the same hall on the same day from 10:00 to 12:00.
\<close>

theorem save_conflict_refused_witness:
  "noOverlap
     (bookings
        \<lparr>bookings = [\<lparr>date = ''2025-03-10'', time = ''09:00'', endTime = ''11:00'',
                       department = ''HR'', notesB = [], idB = ''1'', hallId = AlWaha\<rparr>],
         selectedHall = AlWaha,
         modalInfo = \<lparr>isOpen = True, bookingToEdit = None,
                      modalDate = Some \<lparr>fullYear = 2025, monthIx = 2, dayOfMonth = 10\<rparr>,
                      modalTime = Some ''10:00''\<rparr>,
         hasUnsavedChanges = True\<rparr>) \<and>
   \<not> noOverlap
     (bookingsAfterSave
        \<lparr>bookings = [\<lparr>date = ''2025-03-10'', time = ''09:00'', endTime = ''11:00'',
                       department = ''HR'', notesB = [], idB = ''1'', hallId = AlWaha\<rparr>],
         selectedHall = AlWaha,
         modalInfo = \<lparr>isOpen = True, bookingToEdit = None,
                      modalDate = Some \<lparr>fullYear = 2025, monthIx = 2, dayOfMonth = 10\<rparr>,
                      modalTime = Some ''10:00''\<rparr>,
         hasUnsavedChanges = True\<rparr>
        ''2025-03-01T08:00:00.000Z''
        \<lparr>date = ''2025-03-10'', time = ''10:00'', endTime = ''12:00'', department = ''IT'',
         notesB = []\<rparr>) \<and>
   handleSaveBooking
     \<lparr>bookings = [\<lparr>date = ''2025-03-10'', time = ''09:00'', endTime = ''11:00'',
                    department = ''HR'', notesB = [], idB = ''1'', hallId = AlWaha\<rparr>],
      selectedHall = AlWaha,
      modalInfo = \<lparr>isOpen = True, bookingToEdit = None,
                   modalDate = Some \<lparr>fullYear = 2025, monthIx = 2, dayOfMonth = 10\<rparr>,
                   modalTime = Some ''10:00''\<rparr>,
      hasUnsavedChanges = True\<rparr>
     ''2025-03-01T08:00:00.000Z''
     \<lparr>date = ''2025-03-10'', time = ''10:00'', endTime = ''12:00'', department = ''IT'',
      notesB = []\<rparr>
   = (Inl BookingConflict,
      \<lparr>bookings = [\<lparr>date = ''2025-03-10'', time = ''09:00'', endTime = ''11:00'',
                     department = ''HR'', notesB = [], idB = ''1'', hallId = AlWaha\<rparr>],
       selectedHall = AlWaha,
       modalInfo = \<lparr>isOpen = True, bookingToEdit = None,
                    modalDate = Some \<lparr>fullYear = 2025, monthIx = 2, dayOfMonth = 10\<rparr>,
                    modalTime = Some ''10:00''\<rparr>,
       hasUnsavedChanges = True\<rparr>)"
  (is "?inv \<and> ?bad \<and> ?refused")
proof -
  have inv: ?inv by (simp add: noOverlap_def)
  have bad: ?bad by (simp add: noOverlap_def bookingsAfterSave_def overlap_def)
  from save_conflict_refused [OF inv bad] inv bad show ?thesis by blast
qed

lemma handleSaveBooking_bookings:
  "bookings (snd (handleSaveBooking st nowIso d)) =
     (if hasConflict (bookings st) (bookingToEdit (modalInfo st)) (currentHallOf st) d
      then bookings st else bookingsAfterSave st nowIso d)"
  by (simp add: handleSaveBooking_def handleCloseModal_def)

text \<open>
  A save that goes through commits a list that satisfies the invariant again.
\<close>

lemma save_keeps_noOverlap:
  assumes "noOverlap (bookings st)"
  shows "noOverlap (bookings (snd (handleSaveBooking st nowIso d)))"
proof (cases "hasConflict (bookings st) (bookingToEdit (modalInfo st)) (currentHallOf st) d")
  case True
  with assms show ?thesis by (simp add: handleSaveBooking_bookings)
next
  case False
  with violation_is_conflict [OF assms, of nowIso d]
  have "noOverlap (bookingsAfterSave st nowIso d)" by blast
  with False show ?thesis by (simp add: handleSaveBooking_bookings)
qed

text \<open>
  Clicking a booking opens the dialog on the booking of the list that has the id.
\<close>

lemma handleBookingClick_edit:
  assumes "find (\<lambda>b. idB b = bookingId) (bookings st) = Some e"
  shows "bookingToEdit (modalInfo (handleBookingClick st bookingId)) = Some e"
    and "e \<in> set (bookings st)"
    and "bookings (handleBookingClick st bookingId) = bookings st"
proof -
  from assms show "bookingToEdit (modalInfo (handleBookingClick st bookingId)) = Some e"
    by (simp add: handleBookingClick_def)
  from assms show "e \<in> set (bookings st)"
    by (auto simp: find_Some_iff)
  from assms show "bookings (handleBookingClick st bookingId) = bookings st"
    by (simp add: handleBookingClick_def)
qed

text \<open>
  Claim C8. When the booking being edited is in the list and the ids of the list are
  pairwise different, a save leaves the list as long as it was, every position keeps
  its id and its hall, and every booking whose id is not the edited one is unchanged.
\<close>

theorem edit_keeps_id_hall_and_others:
  assumes "bookingToEdit (modalInfo st) = Some e" and "e \<in> set (bookings st)"
    and "distinct (map idB (bookings st))"
  shows "length (bookings (snd (handleSaveBooking st nowIso d))) = length (bookings st) \<and>
         (\<forall>k < length (bookings st).
            idB (bookings (snd (handleSaveBooking st nowIso d)) ! k) = idB (bookings st ! k) \<and>
            hallId (bookings (snd (handleSaveBooking st nowIso d)) ! k) = hallId (bookings st ! k) \<and>
            (idB (bookings st ! k) \<noteq> idB e \<longrightarrow>
               bookings (snd (handleSaveBooking st nowIso d)) ! k = bookings st ! k))"
proof (cases "hasConflict (bookings st) (bookingToEdit (modalInfo st)) (currentHallOf st) d")
  case True
  then show ?thesis by (simp add: handleSaveBooking_bookings)
next
  case False
  have same: "b = e" if "b \<in> set (bookings st)" "idB b = idB e" for b
    using that assms(2,3) by (meson distinct_map inj_onD)
  have "hallId (bookings st ! k) = hallId e"
    if "k < length (bookings st)" "idB (bookings st ! k) = idB e" for k
    using same [of "bookings st ! k"] that by simp
  with False assms(1) show ?thesis
    by (simp add: handleSaveBooking_bookings bookingsAfterSave_def)
qed

text \<open>
  Editing the first of two bookings: its times and texts change, its id and hall do
  not, and the second booking stays as it is.
\<close>

theorem edit_keeps_id_hall_and_others_witness:
  "bookingToEdit
     (modalInfo
        \<lparr>bookings = [\<lparr>date = ''2025-03-10'', time = ''09:00'', endTime = ''11:00'',
                       department = ''HR'', notesB = [], idB = ''1'', hallId = AlWaha\<rparr>,
                     \<lparr>date = ''2025-03-10'', time = ''11:00'', endTime = ''12:00'',
                       department = ''IT'', notesB = [], idB = ''2'', hallId = AlWaha\<rparr>],
         selectedHall = AlDana,
         modalInfo = \<lparr>isOpen = True,
                      bookingToEdit =
                        Some \<lparr>date = ''2025-03-10'', time = ''09:00'', endTime = ''11:00'',
                               department = ''HR'', notesB = [], idB = ''1'', hallId = AlWaha\<rparr>,
                      modalDate = None, modalTime = None\<rparr>,
         hasUnsavedChanges = False\<rparr>)
   = Some \<lparr>date = ''2025-03-10'', time = ''09:00'', endTime = ''11:00'',
           department = ''HR'', notesB = [], idB = ''1'', hallId = AlWaha\<rparr> \<and>
   \<lparr>date = ''2025-03-10'', time = ''09:00'', endTime = ''11:00'',
     department = ''HR'', notesB = [], idB = ''1'', hallId = AlWaha\<rparr>
   \<in> set [\<lparr>date = ''2025-03-10'', time = ''09:00'', endTime = ''11:00'',
             department = ''HR'', notesB = [], idB = ''1'', hallId = AlWaha\<rparr>,
           \<lparr>date = ''2025-03-10'', time = ''11:00'', endTime = ''12:00'',
             department = ''IT'', notesB = [], idB = ''2'', hallId = AlWaha\<rparr>] \<and>
   distinct (map idB
          [\<lparr>date = ''2025-03-10'', time = ''09:00'', endTime = ''11:00'',
             department = ''HR'', notesB = [], idB = ''1'', hallId = AlWaha\<rparr>,
           \<lparr>date = ''2025-03-10'', time = ''11:00'', endTime = ''12:00'',
             department = ''IT'', notesB = [], idB = ''2'', hallId = AlWaha\<rparr>]) \<and>
   bookings (snd (handleSaveBooking
        \<lparr>bookings = [\<lparr>date = ''2025-03-10'', time = ''09:00'', endTime = ''11:00'',
                       department = ''HR'', notesB = [], idB = ''1'', hallId = AlWaha\<rparr>,
                     \<lparr>date = ''2025-03-10'', time = ''11:00'', endTime = ''12:00'',
                       department = ''IT'', notesB = [], idB = ''2'', hallId = AlWaha\<rparr>],
         selectedHall = AlDana,
         modalInfo = \<lparr>isOpen = True,
                      bookingToEdit =
                        Some \<lparr>date = ''2025-03-10'', time = ''09:00'', endTime = ''11:00'',
                               department = ''HR'', notesB = [], idB = ''1'', hallId = AlWaha\<rparr>,
                      modalDate = None, modalTime = None\<rparr>,
         hasUnsavedChanges = False\<rparr>
        ''2025-03-01T08:00:00.000Z''
        \<lparr>date = ''2025-03-10'', time = ''08:00'', endTime = ''10:00'', department = ''Finance'',
         notesB = ''moved''\<rparr>))
   = [\<lparr>date = ''2025-03-10'', time = ''08:00'', endTime = ''10:00'',
       department = ''Finance'', notesB = ''moved'', idB = ''1'', hallId = AlWaha\<rparr>,
      \<lparr>date = ''2025-03-10'', time = ''11:00'', endTime = ''12:00'',
       department = ''IT'', notesB = [], idB = ''2'', hallId = AlWaha\<rparr>]"
  (is "?edit \<and> ?mem \<and> ?ids \<and> ?after")
proof -
  have edit: ?edit by simp
  have mem: ?mem by simp
  have ids: ?ids by simp
  have after: ?after
    by (simp add: handleSaveBooking_def handleCloseModal_def bookingsAfterSave_def
        hasConflict_def conflictsWith_def currentHallOf_def spread_def)
  note frame = edit_keeps_id_hall_and_others [OF edit, of "''2025-03-01T08:00:00.000Z''"
      "\<lparr>date = ''2025-03-10'', time = ''08:00'', endTime = ''10:00'', department = ''Finance'',
        notesB = ''moved''\<rparr>"]
  from frame edit mem ids after show ?thesis by simp
qed

section \<open>The cells of a row cover the slot columns\<close>

lemma indexOf_le_display: "indexOf ts x \<le> int (length (displayTimeSlots ts))"
  using indexOf_lt [of ts x] by (simp add: displayTimeSlots_def)

lemma displayTimeSlots_nth:
  "i < length (displayTimeSlots ts) \<Longrightarrow> displayTimeSlots ts ! i = ts ! i"
  by (simp add: displayTimeSlots_def nth_butlast)

lemma rowCells_columns:
  "i \<le> length (displayTimeSlots ts) \<Longrightarrow>
     concat (cellColumns i (rowCells ts bs i)) = [i ..< length (displayTimeSlots ts)]"
proof (induction ts bs i rule: rowCells.induct)
  case (1 ts bs i)
  let ?N = "length (displayTimeSlots ts)"
  show ?case
  proof (cases "i < ?N")
    case False
    with "1.prems" show ?thesis by simp
  next
    case inrange: True
    show ?thesis
    proof (cases "find (\<lambda>b. time b = ts ! i) bs")
      case None
      with inrange "1.IH"(1) [OF inrange None] show ?thesis
        by (simp add: upt_conv_Cons)
    next
      case (Some booking)
      let ?e = "indexOf ts (endTime booking)"
      show ?thesis
      proof (cases "?e > int i")
        case False
        with inrange Some "1.IH"(3) [OF inrange Some False] show ?thesis
          by (simp add: upt_conv_Cons)
      next
        case True
        let ?span = "nat (?e - int i)"
        have le: "i + ?span \<le> ?N" using True indexOf_le_display [of ts "endTime booking"]
          by simp
        have "concat (cellColumns (i + ?span) (rowCells ts bs (i + ?span))) = [i + ?span ..< ?N]"
          using "1.IH"(2) [OF inrange Some True le] .
        moreover have "[i ..< ?N] = [i ..< i + ?span] @ [i + ?span ..< ?N]"
          using le by (metis le_add1 upt_add_eq_append le_Suc_ex)
        ultimately show ?thesis using inrange Some True by simp
      qed
    qed
  qed
qed

lemma rowCells_spans:
  "i \<le> length (displayTimeSlots ts) \<Longrightarrow>
     sum_list (map colSpan (rowCells ts bs i)) = length (displayTimeSlots ts) - i"
proof (induction ts bs i rule: rowCells.induct)
  case (1 ts bs i)
  let ?N = "length (displayTimeSlots ts)"
  show ?case
  proof (cases "i < ?N")
    case False
    with "1.prems" show ?thesis by simp
  next
    case inrange: True
    show ?thesis
    proof (cases "find (\<lambda>b. time b = ts ! i) bs")
      case None
      with inrange "1.IH"(1) [OF inrange None] show ?thesis by simp
    next
      case (Some booking)
      let ?e = "indexOf ts (endTime booking)"
      show ?thesis
      proof (cases "?e > int i")
        case False
        with inrange Some "1.IH"(3) [OF inrange Some False] show ?thesis by simp
      next
        case True
        let ?span = "nat (?e - int i)"
        have le: "i + ?span \<le> ?N" using True indexOf_le_display [of ts "endTime booking"]
          by simp
        have "sum_list (map colSpan (rowCells ts bs (i + ?span))) = ?N - (i + ?span)"
          using "1.IH"(2) [OF inrange Some True le] .
        then show ?thesis using inrange Some True le by simp
      qed
    qed
  qed
qed

text \<open>
  Claim C4. For every slot grid and every list of bookings, the spans of the cells of
  a row of the on-screen grid add up to the number of slot columns (the length of the
  grid without the sentinel), and the columns the cells take, one cell after the
  other, are the slot columns in order, so each slot index lies in exactly one cell.
\<close>

theorem rowCells_cover:
  "sum_list (map colSpan (rowCells ts bs 0)) = length (displayTimeSlots ts) \<and>
   concat (cellColumns 0 (rowCells ts bs 0)) = [0 ..< length (displayTimeSlots ts)]"
  using rowCells_spans [of 0 ts bs] rowCells_columns [of 0 ts bs] by simp

lemma rowCells_labels:
  "x \<in> set (rowCells ts bs i) \<Longrightarrow>
     (case x of EmptyCell t \<Rightarrow> t \<in> set (displayTimeSlots ts)
              | BookingCell b n \<Rightarrow> time b \<in> set (displayTimeSlots ts) \<and> b \<in> set bs \<and> 0 < n)"
proof (induction ts bs i rule: rowCells.induct)
  case (1 ts bs i)
  let ?N = "length (displayTimeSlots ts)"
  show ?case
  proof (cases "i < ?N")
    case False
    with "1.prems" show ?thesis by simp
  next
    case inrange: True
    then have here: "ts ! i \<in> set (displayTimeSlots ts)"
      by (metis displayTimeSlots_nth nth_mem)
    show ?thesis
    proof (cases "find (\<lambda>b. time b = ts ! i) bs")
      case None
      with inrange "1.IH"(1) [OF inrange None] "1.prems" here show ?thesis
        by auto
    next
      case (Some booking)
      then have found: "time booking = ts ! i" "booking \<in> set bs"
        by (auto simp: find_Some_iff)
      let ?e = "indexOf ts (endTime booking)"
      show ?thesis
      proof (cases "?e > int i")
        case False
        with inrange Some "1.IH"(3) [OF inrange Some False] "1.prems" here show ?thesis
          by auto
      next
        case True
        with inrange Some "1.IH"(2) [OF inrange Some True] "1.prems" here found show ?thesis
          by auto
      qed
    qed
  qed
qed

text \<open>
  Claim C1. A booking from 09:00 to 08:00 has its end before its start. The export
  gives it one column with its department, as the claim says; the on-screen grid gives
  it no cell at all: every cell of the row is an \<^verbatim>\<open>EmptyCell\<close>, also the one of 09:00.
\<close>

theorem rowCells_malformed_dropped:
  "rowCells timeSlots
     [\<lparr>date = ''2025-03-10'', time = ''09:00'', endTime = ''08:00'', department = ''HR'',
       notesB = [], idB = ''1'', hallId = AlWaha\<rparr>] 0
   = map EmptyCell (displayTimeSlots timeSlots)
   \<and> exportSlots timeSlots
     [\<lparr>date = ''2025-03-10'', time = ''09:00'', endTime = ''08:00'', department = ''HR'',
       notesB = [], idB = ''1'', hallId = AlWaha\<rparr>] 4 0
   = ([SStr [], SStr [], SStr ''HR'', SStr [], SStr [], SStr [], SStr [], SStr [], SStr [],
       SStr [], SStr []], [])"
  by code_simp

section \<open>The export and the grid\<close>

lemma find_slot_index:
  assumes "distinct ts" and "i < length (displayTimeSlots ts)"
    and "find (\<lambda>b. time b = ts ! i) bs = Some booking"
  shows "indexOf ts (time booking) = int i" and "booking \<in> set bs"
proof -
  from assms(3) have t: "time booking = ts ! i" and m: "booking \<in> set bs"
    by (auto simp: find_Some_iff)
  from assms(2) have "i < length ts" by (simp add: displayTimeSlots_def)
  with assms(1) t show "indexOf ts (time booking) = int i"
    by (simp add: indexOf_nth_distinct)
  from m show "booking \<in> set bs" .
qed

lemma exportSpan_bound:
  assumes "distinct ts" and "i < length (displayTimeSlots ts)"
    and "find (\<lambda>b. time b = ts ! i) bs = Some booking"
  shows "i + exportSpan ts booking \<le> length (displayTimeSlots ts)"
  using find_slot_index(1) [OF assms] indexOf_le_display [of ts "endTime booking"] assms(2)
  by (auto simp: exportSpan_def Let_def)

lemma exportSpan_pos: "0 < exportSpan ts booking"
  by (simp add: exportSpan_def Let_def)

lemma exportSpan_malformed:
  "indexOf ts (endTime booking) \<le> indexOf ts (time booking) \<Longrightarrow> exportSpan ts booking = 1"
  by (simp add: exportSpan_def Let_def)

lemma exportSlots_length:
  "distinct ts \<Longrightarrow> i \<le> length (displayTimeSlots ts) \<Longrightarrow>
     length (fst (exportSlots ts bs rowIndex i)) = length (displayTimeSlots ts) - i"
proof (induction ts bs rowIndex i rule: exportSlots.induct)
  case (1 ts bs rowIndex i)
  let ?N = "length (displayTimeSlots ts)"
  show ?case
  proof (cases "i < ?N")
    case False
    with "1.prems" show ?thesis by simp
  next
    case inrange: True
    show ?thesis
    proof (cases "find (\<lambda>b. time b = ts ! i) bs")
      case None
      with inrange "1.IH"(1) [OF inrange None] "1.prems" show ?thesis
        by (simp add: Let_def)
    next
      case (Some booking)
      have le: "i + exportSpan ts booking \<le> ?N"
        using exportSpan_bound [OF "1.prems"(1) inrange Some] .
      have "length (fst (exportSlots ts bs rowIndex (i + exportSpan ts booking))) =
              ?N - (i + exportSpan ts booking)"
        using "1.IH"(2) [OF inrange Some refl "1.prems"(1) le] .
      with inrange Some le exportSpan_pos [of ts booking] show ?thesis
        by (simp add: Let_def)
    qed
  qed
qed

lemma export_agrees_when_wellformed:
  "distinct ts \<Longrightarrow> \<forall>b \<in> set bs. indexOf ts (time b) < indexOf ts (endTime b) \<Longrightarrow>
     exportSlots ts bs rowIndex i = cellsAsSheet rowIndex i (rowCells ts bs i)"
proof (induction ts bs rowIndex i rule: exportSlots.induct)
  case (1 ts bs rowIndex i)
  let ?N = "length (displayTimeSlots ts)"
  show ?case
  proof (cases "i < ?N")
    case False
    then show ?thesis by simp
  next
    case inrange: True
    show ?thesis
    proof (cases "find (\<lambda>b. time b = ts ! i) bs")
      case None
      with inrange "1.IH"(1) [OF inrange None "1.prems"] show ?thesis
        by (simp add: Let_def)
    next
      case (Some booking)
      have ix: "indexOf ts (time booking) = int i" and m: "booking \<in> set bs"
        using find_slot_index [OF "1.prems"(1) inrange Some] .
      from m "1.prems"(2) ix have later: "int i < indexOf ts (endTime booking)"
        by auto
      then have span: "exportSpan ts booking = nat (indexOf ts (endTime booking) - int i)"
        using ix by (simp add: exportSpan_def Let_def)
      have "exportSlots ts bs rowIndex (i + exportSpan ts booking) =
              cellsAsSheet rowIndex (i + exportSpan ts booking)
                (rowCells ts bs (i + exportSpan ts booking))"
        using "1.IH"(2) [OF inrange Some refl "1.prems"] .
      with inrange Some later span show ?thesis
        by (simp add: Let_def)
    qed
  qed
qed

lemma bookingsByDateFrom_lookup:
  "\<forall>b \<in> set bs. date b \<notin> set objectPrototypeKeys \<Longrightarrow>
     \<exists>m. bookingsByDateFrom acc bs = Inr m \<and>
         (\<forall>k. (case m k of Some xs \<Rightarrow> xs | None \<Rightarrow> []) =
              (case acc k of Some xs \<Rightarrow> xs | None \<Rightarrow> []) @ filter (\<lambda>b. date b = k) bs)"
proof (induction bs arbitrary: acc)
  case Nil
  then show ?case by simp
next
  case (Cons b bs)
  let ?acc = "acc(date b \<mapsto> (case acc (date b) of Some xs \<Rightarrow> xs | None \<Rightarrow> []) @ [b])"
  from Cons.prems have rest: "\<forall>x \<in> set bs. date x \<notin> set objectPrototypeKeys"
    and here: "date b \<notin> set objectPrototypeKeys"
    by simp_all
  from Cons.IH [OF rest, of ?acc] obtain m where
    m: "bookingsByDateFrom ?acc bs = Inr m"
       "\<forall>k. (case m k of Some xs \<Rightarrow> xs | None \<Rightarrow> []) =
            (case ?acc k of Some xs \<Rightarrow> xs | None \<Rightarrow> []) @ filter (\<lambda>b. date b = k) bs"
    by blast
  from m(2) have "\<forall>k. (case m k of Some xs \<Rightarrow> xs | None \<Rightarrow> []) =
            (case acc k of Some xs \<Rightarrow> xs | None \<Rightarrow> []) @ filter (\<lambda>x. date x = k) (b # bs)"
    by auto
  with m(1) here show ?case by simp
qed

text \<open>
  When no date is an inherited property name, the bookings of a day are the bookings
  with that date, in the order of the list.
\<close>

lemma allDayBookings_filter:
  assumes "\<forall>b \<in> set bs. date b \<notin> set objectPrototypeKeys" and "d \<notin> set objectPrototypeKeys"
  shows "allDayBookings bs d = Inr (filter (\<lambda>b. date b = d) bs)"
proof -
  from bookingsByDateFrom_lookup [OF assms(1), of Map.empty] obtain m where
    m: "bookingsByDateFrom Map.empty bs = Inr m"
       "\<forall>k. (case m k of Some xs \<Rightarrow> xs | None \<Rightarrow> []) = filter (\<lambda>b. date b = k) bs"
    by auto
  with assms(2) show ?thesis by (simp add: allDayBookings_def bookingsByDate_def)
qed

text \<open>A booking dated with an inherited property name makes the grouping throw.\<close>

lemma bookingsByDateFrom_throws:
  "\<exists>b \<in> set bs. date b \<in> set objectPrototypeKeys \<Longrightarrow> bookingsByDateFrom acc bs = Inl TypeError"
  by (induction bs arbitrary: acc) auto

lemma grid_and_export_same_bookings:
  assumes "\<forall>b \<in> set bs. date b \<notin> set objectPrototypeKeys" and "d \<notin> set objectPrototypeKeys"
  shows "allDayBookings (filter (\<lambda>b. hallId b = hall) bs) d = Inr (dayBookings bs hall d)"
  using assms by (simp add: allDayBookings_filter dayBookings_def)

text \<open>
  Claim C5. A booking from 09:00 whose end is not a label of the grid: the values and
  merge regions the export produces for the row are not the ones of the cells the
  on-screen grid produces for it (the export shows the department at 09:00, the grid
  an empty cell).
\<close>

theorem export_differs_from_grid:
  "exportSlots timeSlots
     [\<lparr>date = ''2025-03-10'', time = ''09:00'', endTime = ''25:00'', department = ''HR'',
       notesB = [], idB = ''1'', hallId = AlWaha\<rparr>] 4 0
   \<noteq> cellsAsSheet 4 0
       (rowCells timeSlots
          [\<lparr>date = ''2025-03-10'', time = ''09:00'', endTime = ''25:00'', department = ''HR'',
            notesB = [], idB = ''1'', hallId = AlWaha\<rparr>] 0)"
  by code_simp

lemma timeSlots_display:
  "displayTimeSlots timeSlots = [''07:30'', ''08:00'', ''09:00'', ''10:00'', ''11:00'', ''12:00'',
                ''13:00'', ''14:00'', ''15:00'', ''16:00'', ''17:00'']"
  by (simp add: displayTimeSlots_def timeSlots_def)

text \<open>
  Claim C7. The last label of the slot grid is 18:00. It is not among the labels that
  head the slot columns of the grid and of the export; no row of the grid has an empty
  cell for it or a cell in its column (column 11); a row of the export has exactly one
  value per displayed label. A booking may still end at 18:00: one from 16:00 to 18:00
  takes the last two columns.
\<close>

theorem sentinel_never_a_column:
  "last timeSlots = ''18:00'' \<and>
   ''18:00'' \<notin> set (displayTimeSlots timeSlots) \<and>
   EmptyCell ''18:00'' \<notin> set (rowCells timeSlots bs 0) \<and>
   indexOf timeSlots ''18:00'' = 11 \<and>
   11 \<notin> set (concat (cellColumns 0 (rowCells timeSlots bs 0))) \<and>
   length (fst (exportSlots timeSlots bs rowIndex 0)) = length (displayTimeSlots timeSlots) \<and>
   rowCells timeSlots
     [\<lparr>date = ''2025-03-10'', time = ''16:00'', endTime = ''18:00'', department = ''HR'',
       notesB = [], idB = ''1'', hallId = AlWaha\<rparr>] 0
   = map EmptyCell (take 9 timeSlots) @
     [BookingCell
       \<lparr>date = ''2025-03-10'', time = ''16:00'', endTime = ''18:00'', department = ''HR'',
         notesB = [], idB = ''1'', hallId = AlWaha\<rparr> 2]"
proof -
  have a: "last timeSlots = ''18:00''" by (simp add: timeSlots_def)
  have b: "''18:00'' \<notin> set (displayTimeSlots timeSlots)" by (simp add: timeSlots_display)
  have c: "EmptyCell ''18:00'' \<notin> set (rowCells timeSlots bs 0)"
    using rowCells_labels [of "EmptyCell ''18:00''" timeSlots bs 0] b by auto
  have d: "indexOf timeSlots ''18:00'' = 11" by (simp add: timeSlots_def)
  have e: "11 \<notin> set (concat (cellColumns 0 (rowCells timeSlots bs 0)))"
    using rowCells_columns [of 0 timeSlots bs] by (simp add: timeSlots_display)
  have f: "length (fst (exportSlots timeSlots bs rowIndex 0)) = length (displayTimeSlots timeSlots)"
    using exportSlots_length [OF timeSlots_distinct, of 0 bs rowIndex] by simp
  have g: "rowCells timeSlots
     [\<lparr>date = ''2025-03-10'', time = ''16:00'', endTime = ''18:00'', department = ''HR'',
       notesB = [], idB = ''1'', hallId = AlWaha\<rparr>] 0
   = map EmptyCell (take 9 timeSlots) @
     [BookingCell
       \<lparr>date = ''2025-03-10'', time = ''16:00'', endTime = ''18:00'', department = ''HR'',
         notesB = [], idB = ''1'', hallId = AlWaha\<rparr> 2]"
    by code_simp
  from a b c d e f g show ?thesis by blast
qed

section \<open>The calendar of \<open>setDate\<close>\<close>

lemma daysInMonthOf_bounds: "28 \<le> daysInMonthOf y m" "daysInMonthOf y m \<le> 31"
  by (simp_all add: daysInMonthOf_def)

lemma rollOver_in_month:
  "n \<le> daysInMonthOf y m \<Longrightarrow> rollOver y m n = \<lparr>fullYear = y, monthIx = m, dayOfMonth = n\<rparr>"
  by (subst rollOver.simps) simp

lemma rollOver_small:
  "n \<le> 28 \<Longrightarrow> rollOver y m n = \<lparr>fullYear = y, monthIx = m, dayOfMonth = n\<rparr>"
  using daysInMonthOf_bounds(1) [of y m] by (intro rollOver_in_month) simp

lemma rollOver_next_month:
  assumes "daysInMonthOf y m < n"
  shows "rollOver y m n =
           (if m \<ge> 11 then rollOver (y + 1) 0 (n - daysInMonthOf y m)
            else rollOver y (m + 1) (n - daysInMonthOf y m))"
  using assms by (subst rollOver.simps) simp

lemma rollOver_past_end:
  assumes "1 \<le> k" and "k \<le> 28" and "n = daysInMonthOf y m + k"
  shows "rollOver y m n =
           (if m < 11 then \<lparr>fullYear = y, monthIx = m + 1, dayOfMonth = k\<rparr>
            else \<lparr>fullYear = y + 1, monthIx = 0, dayOfMonth = k\<rparr>)"
proof -
  have "daysInMonthOf y m < n" using assms(1,3) by simp
  from rollOver_next_month [OF this]
  have "rollOver y m n = (if m \<ge> 11 then rollOver (y + 1) 0 k else rollOver y (m + 1) k)"
    using assms(3) by simp
  also have "\<dots> = (if m < 11 then \<lparr>fullYear = y, monthIx = m + 1, dayOfMonth = k\<rparr>
            else \<lparr>fullYear = y + 1, monthIx = 0, dayOfMonth = k\<rparr>)"
    using rollOver_small [OF assms(2), of y "m + 1"] rollOver_small [OF assms(2), of "y + 1" 0]
    by auto
  finally show ?thesis .
qed

lemma setDate_rollOver: "0 < n \<Longrightarrow> setDate d n = rollOver (fullYear d) (monthIx d) n"
  by (simp add: setDate_def)

lemma setDate_tomorrow:
  assumes "validDate d"
  shows "setDate d (getDate d + 1) = nextDay d"
proof (cases "dayOfMonth d < daysInMonthOf (fullYear d) (monthIx d)")
  case True
  then have "rollOver (fullYear d) (monthIx d) (dayOfMonth d + 1) =
               \<lparr>fullYear = fullYear d, monthIx = monthIx d, dayOfMonth = dayOfMonth d + 1\<rparr>"
    by (intro rollOver_in_month) simp
  with True show ?thesis
    by (simp add: setDate_rollOver getDate_def nextDay_def)
next
  case False
  with assms have last: "dayOfMonth d = daysInMonthOf (fullYear d) (monthIx d)"
    by (simp add: validDate_def)
  have "setDate d (getDate d + 1) = rollOver (fullYear d) (monthIx d) (dayOfMonth d + 1)"
    by (simp add: setDate_rollOver getDate_def)
  also have "\<dots> = (if monthIx d < 11
                     then \<lparr>fullYear = fullYear d, monthIx = monthIx d + 1, dayOfMonth = 1\<rparr>
                     else \<lparr>fullYear = fullYear d + 1, monthIx = 0, dayOfMonth = 1\<rparr>)"
    using last by (intro rollOver_past_end) simp_all
  also have "\<dots> = nextDay d"
    using False by (simp add: nextDay_def)
  finally show ?thesis .
qed

lemma validDate_nextDay: "validDate d \<Longrightarrow> validDate (nextDay d)"
  using daysInMonthOf_bounds(1) [of "fullYear d" "monthIx d + 1"]
    daysInMonthOf_bounds(1) [of "fullYear d + 1" 0]
  by (auto simp: validDate_def nextDay_def)

lemma setDate_dayAfter:
  assumes "validDate d"
  shows "setDate d (getDate d + 2) = nextDay (nextDay d)"
proof -
  let ?y = "fullYear d" and ?m = "monthIx d" and ?n = "dayOfMonth d"
  let ?dim = "daysInMonthOf ?y ?m"
  from assms have v: "?m < 12" "1 \<le> ?n" "?n \<le> ?dim" by (simp_all add: validDate_def)
  have start: "setDate d (getDate d + 2) = rollOver ?y ?m (?n + 2)"
    by (simp add: setDate_rollOver getDate_def)
  have big: "1 < daysInMonthOf y m" for y m
    using daysInMonthOf_bounds(1) [of y m] by simp
  consider (a) "?n + 2 \<le> ?dim" | (b) "?n + 1 = ?dim" | (c) "?n = ?dim" using v by arith
  then show ?thesis
  proof cases
    case a
    then have "rollOver ?y ?m (?n + 2) = \<lparr>fullYear = ?y, monthIx = ?m, dayOfMonth = ?n + 2\<rparr>"
      by (intro rollOver_in_month)
    moreover from a have "nextDay d = \<lparr>fullYear = ?y, monthIx = ?m, dayOfMonth = ?n + 1\<rparr>"
      by (simp add: nextDay_def)
    moreover from a have "nextDay \<lparr>fullYear = ?y, monthIx = ?m, dayOfMonth = ?n + 1\<rparr> =
        \<lparr>fullYear = ?y, monthIx = ?m, dayOfMonth = ?n + 2\<rparr>"
      by (simp add: nextDay_def)
    ultimately show ?thesis using start by simp
  next
    case b
    then have "rollOver ?y ?m (?n + 2) =
        (if ?m < 11 then \<lparr>fullYear = ?y, monthIx = ?m + 1, dayOfMonth = 1\<rparr>
         else \<lparr>fullYear = ?y + 1, monthIx = 0, dayOfMonth = 1\<rparr>)"
      by (intro rollOver_past_end) simp_all
    moreover from b have "nextDay d = \<lparr>fullYear = ?y, monthIx = ?m, dayOfMonth = ?dim\<rparr>"
      by (simp add: nextDay_def)
    moreover have "nextDay \<lparr>fullYear = ?y, monthIx = ?m, dayOfMonth = ?dim\<rparr> =
        (if ?m < 11 then \<lparr>fullYear = ?y, monthIx = ?m + 1, dayOfMonth = 1\<rparr>
         else \<lparr>fullYear = ?y + 1, monthIx = 0, dayOfMonth = 1\<rparr>)"
      by (simp add: nextDay_def)
    ultimately show ?thesis using start by simp
  next
    case c
    then have "rollOver ?y ?m (?n + 2) =
        (if ?m < 11 then \<lparr>fullYear = ?y, monthIx = ?m + 1, dayOfMonth = 2\<rparr>
         else \<lparr>fullYear = ?y + 1, monthIx = 0, dayOfMonth = 2\<rparr>)"
      by (intro rollOver_past_end) simp_all
    moreover from c have "nextDay d =
        (if ?m < 11 then \<lparr>fullYear = ?y, monthIx = ?m + 1, dayOfMonth = 1\<rparr>
         else \<lparr>fullYear = ?y + 1, monthIx = 0, dayOfMonth = 1\<rparr>)"
      by (simp add: nextDay_def)
    moreover have "nextDay \<lparr>fullYear = y, monthIx = m, dayOfMonth = 1\<rparr> =
        \<lparr>fullYear = y, monthIx = m, dayOfMonth = 2\<rparr>" for y m
      using big [of y m] by (simp add: nextDay_def)
    ultimately show ?thesis using start by simp
  qed
qed

text \<open>
  \<open>nextDay\<close> is the day after in the calendar: within a year the number of the day
  goes up by one, and after the last day of a year comes day 1 of the next year.
\<close>

lemma daysInYear_sum: "sum_list (map (daysInMonthOf y) [0 ..< 12]) = daysInYear y"
proof -
  have "[0 ..< 12] = [0, 1, 2, 3, 4, 5, 6, 7, 8, 9, 10, 11::nat]"
    by code_simp
  then show ?thesis by (simp add: daysInYear_def daysInMonthOf_def)
qed

lemma months_split:
  assumes "m < 12"
  shows "sum_list (map f [0 ..< 12]) =
           sum_list (map f [0 ..< m]) + (f m :: nat) + sum_list (map f [Suc m ..< 12])"
proof -
  have "[0 ..< 12] = [0 ..< m] @ [m ..< 12]"
    using assms upt_add_eq_append [of 0 m "12 - m"] by simp
  also have "[m ..< 12] = m # [Suc m ..< 12]"
    using assms by (simp add: upt_conv_Cons)
  finally show ?thesis by simp
qed

lemma dayOfYear_nextDay:
  assumes "validDate d"
  shows "if dayOfYear d < daysInYear (fullYear d)
         then fullYear (nextDay d) = fullYear d \<and> dayOfYear (nextDay d) = dayOfYear d + 1
         else fullYear (nextDay d) = fullYear d + 1 \<and> dayOfYear (nextDay d) = 1"
proof -
  let ?y = "fullYear d" and ?m = "monthIx d" and ?n = "dayOfMonth d"
  let ?dim = "daysInMonthOf ?y ?m"
  let ?before = "sum_list (map (daysInMonthOf ?y) [0 ..< ?m])"
  let ?after = "sum_list (map (daysInMonthOf ?y) [Suc ?m ..< 12])"
  from assms have v: "?m < 12" "1 \<le> ?n" "?n \<le> ?dim" by (simp_all add: validDate_def)
  have year: "daysInYear ?y = ?before + ?dim + ?after"
    using months_split [OF v(1), of "daysInMonthOf ?y"] by (simp add: daysInYear_sum)
  have doy: "dayOfYear d = ?before + ?n" by (simp add: dayOfYear_def)
  show ?thesis
  proof (cases "?n < ?dim")
    case True
    with year doy have "dayOfYear d < daysInYear ?y" by simp
    moreover from True have "nextDay d = \<lparr>fullYear = ?y, monthIx = ?m, dayOfMonth = ?n + 1\<rparr>"
      by (simp add: nextDay_def)
    ultimately show ?thesis using doy by (simp add: dayOfYear_def)
  next
    case False
    with v have last: "?n = ?dim" by simp
    show ?thesis
    proof (cases "?m < 11")
      case True
      then have "[Suc ?m ..< 12] = Suc ?m # [Suc (Suc ?m) ..< 12]"
        by (simp add: upt_conv_Cons)
      then have "0 < ?after"
        using daysInMonthOf_bounds(1) [of ?y "Suc ?m"] by simp
      with year doy last have lt: "dayOfYear d < daysInYear ?y" by simp
      from True last have nd: "nextDay d = \<lparr>fullYear = ?y, monthIx = ?m + 1, dayOfMonth = 1\<rparr>"
        by (simp add: nextDay_def)
      have "dayOfYear \<lparr>fullYear = ?y, monthIx = ?m + 1, dayOfMonth = 1\<rparr> = ?before + ?dim + 1"
        by (simp add: dayOfYear_def)
      with lt nd doy last show ?thesis by simp
    next
      case False
      with v have m: "?m = 11" by simp
      then have "?after = 0" by simp
      with year doy last have eq: "dayOfYear d = daysInYear ?y" by simp
      from m last have nd: "nextDay d = \<lparr>fullYear = ?y + 1, monthIx = 0, dayOfMonth = 1\<rparr>"
        by (simp add: nextDay_def)
      have "dayOfYear \<lparr>fullYear = ?y + 1, monthIx = 0, dayOfMonth = 1\<rparr> = 1"
        by (simp add: dayOfYear_def)
      with eq nd show ?thesis by simp
    qed
  qed
qed

section \<open>The date format\<close>

text \<open>
  Dates of the calendar in the years 0 to 9999 that are written the same as
  \<^verbatim>\<open>YYYY-MM-DD\<close> are the same date.
\<close>

lemma digit_code: "of_char (digit n) = (48 + n mod 10 :: nat)"
proof -
  have "n mod 10 \<in> set [0 ..< 10]" by simp
  also have "[0 ..< 10] = [0, 1, 2, 3, 4, 5, 6, 7, 8, 9 :: nat]" by code_simp
  finally show ?thesis by (auto simp: digit_def)
qed

lemma digit_inj: "digit a = digit b \<Longrightarrow> a mod 10 = b mod 10"
  using digit_code [of a] digit_code [of b] by simp

lemma pad2_inj:
  assumes "pad2 a = pad2 b"
  shows "a mod 100 = b mod 100"
proof -
  from assms have hi: "digit (a div 10) = digit (b div 10)" and lo: "digit a = digit b"
    by (simp_all add: pad2_def)
  have "(a div 10) mod 10 = (b div 10) mod 10" and "a mod 10 = b mod 10"
    using digit_inj [OF hi] digit_inj [OF lo] .
  then show ?thesis
    using mod_mult2_eq [of a 10 10] mod_mult2_eq [of b 10 10] by simp
qed

lemma pad2_length: "length (pad2 n) = 2"
  by (simp add: pad2_def)

lemma formatToYYYYMMDD_parts:
  assumes "formatToYYYYMMDD d = formatToYYYYMMDD d'"
  shows "pad2 (nat (fullYear d) div 100) = pad2 (nat (fullYear d') div 100)"
    and "pad2 (nat (fullYear d)) = pad2 (nat (fullYear d'))"
    and "pad2 (monthIx d + 1) = pad2 (monthIx d' + 1)"
    and "pad2 (dayOfMonth d) = pad2 (dayOfMonth d')"
  using assms by (simp_all add: formatToYYYYMMDD_def pad2_length)

lemma formatToYYYYMMDD_inj:
  assumes eq: "formatToYYYYMMDD d = formatToYYYYMMDD d'"
    and v: "validDate d" "validDate d'"
    and y: "0 \<le> fullYear d" "fullYear d < 10000" "0 \<le> fullYear d'" "fullYear d' < 10000"
  shows "d = d'"
proof -
  note p = formatToYYYYMMDD_parts [OF eq]
  let ?Y = "nat (fullYear d)" and ?Y' = "nat (fullYear d')"
  have "(?Y div 100) mod 100 = (?Y' div 100) mod 100" and "?Y mod 100 = ?Y' mod 100"
    using pad2_inj [OF p(1)] pad2_inj [OF p(2)] by simp_all
  then have "?Y mod 10000 = ?Y' mod 10000"
    using mod_mult2_eq [of ?Y 100 100] mod_mult2_eq [of ?Y' 100 100] by simp
  moreover have "?Y < 10000" "?Y' < 10000" using y by simp_all
  ultimately have "?Y = ?Y'" by simp
  with y have year: "fullYear d = fullYear d'" by simp
  from v have "monthIx d + 1 < 100" "monthIx d' + 1 < 100" by (simp_all add: validDate_def)
  with pad2_inj [OF p(3)] have month: "monthIx d = monthIx d'" by simp
  from v have "dayOfMonth d < 100" "dayOfMonth d' < 100"
    using daysInMonthOf_bounds(2) [of "fullYear d" "monthIx d"]
      daysInMonthOf_bounds(2) [of "fullYear d'" "monthIx d'"]
    by (simp_all add: validDate_def)
  with pad2_inj [OF p(4)] have day: "dayOfMonth d = dayOfMonth d'" by simp
  from year month day show ?thesis by simp
qed

section \<open>The seed\<close>

lemma generateInitialBookings_same_day:
  assumes "validDate d"
  shows "generateInitialBookings fmt texts d d d =
     [\<lparr>date = fmt d, time = ''09:00'', endTime = ''11:00'',
       department = department1 texts, notesB = notes1 texts, idB = ''1'', hallId = AlWaha\<rparr>,
      \<lparr>date = fmt (nextDay d), time = ''11:00'', endTime = ''12:00'',
       department = department2 texts, notesB = notes2 texts, idB = ''2'', hallId = AlWaha\<rparr>,
      \<lparr>date = fmt (nextDay (nextDay d)), time = ''14:00'', endTime = ''16:00'',
       department = department3 texts, notesB = notes3 texts, idB = ''3'', hallId = AlDana\<rparr>]"
  using setDate_tomorrow [OF assms] setDate_dayAfter [OF assms]
  by (simp add: generateInitialBookings_def Let_def)

text \<open>
  Claim C9, as the code has it. When reading the storage finds nothing or throws, the
  bookings are the seed that \<^verbatim>\<open>generateInitialBookings\<close> makes from the clock, and no
  error comes out. When the readings of the clock are one date \<open>d\<close> of the calendar,
  the seed is three bookings with fixed ids, halls, times and texts, dated \<open>d\<close>, the
  day after \<open>d\<close> and the day after that. The seeds of two dates are the same exactly
  when the three dates are written the same; under a format that tells the two dates
  apart, they are the same only when the two dates are the same.
\<close>

theorem seed_on_unreadable_storage:
  assumes "validDate d" and "validDate d'"
  shows
   "loadBookings parse fmt texts now0 now1 now2 Absent =
      generateInitialBookings fmt texts now0 now1 now2 \<and>
    loadBookings parse fmt texts now0 now1 now2 ReadThrows =
      generateInitialBookings fmt texts now0 now1 now2 \<and>
    generateInitialBookings fmt texts d d d =
     [\<lparr>date = fmt d, time = ''09:00'', endTime = ''11:00'',
       department = department1 texts, notesB = notes1 texts, idB = ''1'', hallId = AlWaha\<rparr>,
      \<lparr>date = fmt (nextDay d), time = ''11:00'', endTime = ''12:00'',
       department = department2 texts, notesB = notes2 texts, idB = ''2'', hallId = AlWaha\<rparr>,
      \<lparr>date = fmt (nextDay (nextDay d)), time = ''14:00'', endTime = ''16:00'',
       department = department3 texts, notesB = notes3 texts, idB = ''3'', hallId = AlDana\<rparr>] \<and>
    (generateInitialBookings fmt texts d d d = generateInitialBookings fmt texts d' d' d') =
      (fmt d = fmt d' \<and> fmt (nextDay d) = fmt (nextDay d') \<and>
       fmt (nextDay (nextDay d)) = fmt (nextDay (nextDay d'))) \<and>
    (inj_on fmt {d, d'} \<longrightarrow>
       (generateInitialBookings fmt texts d d d = generateInitialBookings fmt texts d' d' d') =
       (d = d'))"
proof -
  have load: "loadBookings parse fmt texts now0 now1 now2 Absent =
      generateInitialBookings fmt texts now0 now1 now2"
    "loadBookings parse fmt texts now0 now1 now2 ReadThrows =
      generateInitialBookings fmt texts now0 now1 now2"
    by (simp_all add: loadBookings_def)
  note seed = generateInitialBookings_same_day [OF assms(1), of fmt texts]
  note seed' = generateInitialBookings_same_day [OF assms(2), of fmt texts]
  have same: "(generateInitialBookings fmt texts d d d = generateInitialBookings fmt texts d' d' d') =
      (fmt d = fmt d' \<and> fmt (nextDay d) = fmt (nextDay d') \<and>
       fmt (nextDay (nextDay d)) = fmt (nextDay (nextDay d')))"
    unfolding seed seed' by simp
  have inj: "(generateInitialBookings fmt texts d d d = generateInitialBookings fmt texts d' d' d') =
       (d = d')" if "inj_on fmt {d, d'}"
  proof
    assume "generateInitialBookings fmt texts d d d = generateInitialBookings fmt texts d' d' d'"
    with same have "fmt d = fmt d'" by simp
    from inj_onD [OF that this] show "d = d'" by simp
  next
    assume "d = d'"
    then show "generateInitialBookings fmt texts d d d = generateInitialBookings fmt texts d' d' d'"
      by simp
  qed
  from load seed same inj show ?thesis by blast
qed

text \<open>
  A load on 31 December 2025 after a failed read, and the seed of 28 February 2024:
  the dates roll over into the next year and, in a leap year, pass 29 February. The
  format tells the two dates apart, and the two seeds differ.
\<close>

theorem seed_on_unreadable_storage_witness:
  "validDate \<lparr>fullYear = 2025, monthIx = 11, dayOfMonth = 31\<rparr> \<and>
   validDate \<lparr>fullYear = 2024, monthIx = 1, dayOfMonth = 28\<rparr> \<and>
   inj_on formatToYYYYMMDD
     {\<lparr>fullYear = 2025, monthIx = 11, dayOfMonth = 31\<rparr>,
      \<lparr>fullYear = 2024, monthIx = 1, dayOfMonth = 28\<rparr>} \<and>
   loadBookings (\<lambda>s. None) formatToYYYYMMDD
     \<lparr>department1 = ''HR'', notes1 = [], department2 = ''IT'', notes2 = [],
      department3 = ''Marketing'', notes3 = []\<rparr>
     \<lparr>fullYear = 2025, monthIx = 11, dayOfMonth = 31\<rparr>
     \<lparr>fullYear = 2025, monthIx = 11, dayOfMonth = 31\<rparr>
     \<lparr>fullYear = 2025, monthIx = 11, dayOfMonth = 31\<rparr> ReadThrows =
     [\<lparr>date = ''2025-12-31'', time = ''09:00'', endTime = ''11:00'',
       department = ''HR'', notesB = [], idB = ''1'', hallId = AlWaha\<rparr>,
      \<lparr>date = ''2026-01-01'', time = ''11:00'', endTime = ''12:00'',
       department = ''IT'', notesB = [], idB = ''2'', hallId = AlWaha\<rparr>,
      \<lparr>date = ''2026-01-02'', time = ''14:00'', endTime = ''16:00'',
       department = ''Marketing'', notesB = [], idB = ''3'', hallId = AlDana\<rparr>] \<and>
   generateInitialBookings formatToYYYYMMDD
     \<lparr>department1 = ''HR'', notes1 = [], department2 = ''IT'', notes2 = [],
      department3 = ''Marketing'', notes3 = []\<rparr>
     \<lparr>fullYear = 2024, monthIx = 1, dayOfMonth = 28\<rparr>
     \<lparr>fullYear = 2024, monthIx = 1, dayOfMonth = 28\<rparr>
     \<lparr>fullYear = 2024, monthIx = 1, dayOfMonth = 28\<rparr> =
     [\<lparr>date = ''2024-02-28'', time = ''09:00'', endTime = ''11:00'',
       department = ''HR'', notesB = [], idB = ''1'', hallId = AlWaha\<rparr>,
      \<lparr>date = ''2024-02-29'', time = ''11:00'', endTime = ''12:00'',
       department = ''IT'', notesB = [], idB = ''2'', hallId = AlWaha\<rparr>,
      \<lparr>date = ''2024-03-01'', time = ''14:00'', endTime = ''16:00'',
       department = ''Marketing'', notesB = [], idB = ''3'', hallId = AlDana\<rparr>] \<and>
   generateInitialBookings formatToYYYYMMDD
     \<lparr>department1 = ''HR'', notes1 = [], department2 = ''IT'', notes2 = [],
      department3 = ''Marketing'', notes3 = []\<rparr>
     \<lparr>fullYear = 2025, monthIx = 11, dayOfMonth = 31\<rparr>
     \<lparr>fullYear = 2025, monthIx = 11, dayOfMonth = 31\<rparr>
     \<lparr>fullYear = 2025, monthIx = 11, dayOfMonth = 31\<rparr> \<noteq>
   generateInitialBookings formatToYYYYMMDD
     \<lparr>department1 = ''HR'', notes1 = [], department2 = ''IT'', notes2 = [],
      department3 = ''Marketing'', notes3 = []\<rparr>
     \<lparr>fullYear = 2024, monthIx = 1, dayOfMonth = 28\<rparr>
     \<lparr>fullYear = 2024, monthIx = 1, dayOfMonth = 28\<rparr>
     \<lparr>fullYear = 2024, monthIx = 1, dayOfMonth = 28\<rparr>"
  (is "?v1 \<and> ?v2 \<and> ?inj \<and> ?load \<and> ?seed2 \<and> ?differ")
proof -
  let ?d1 = "\<lparr>fullYear = 2025, monthIx = 11, dayOfMonth = 31\<rparr>"
  let ?d2 = "\<lparr>fullYear = 2024, monthIx = 1, dayOfMonth = 28\<rparr>"
  let ?texts = "\<lparr>department1 = ''HR'', notes1 = [], department2 = ''IT'', notes2 = [],
      department3 = ''Marketing'', notes3 = []\<rparr>"
  have v1: ?v1 by (simp add: validDate_def daysInMonthOf_def)
  have v2: ?v2 by (simp add: validDate_def daysInMonthOf_def isLeapYear_def)
  have f1: "formatToYYYYMMDD ?d1 = ''2025-12-31''"
    by (simp add: formatToYYYYMMDD_def pad2_def digit_def)
  have f2: "formatToYYYYMMDD ?d2 = ''2024-02-28''"
    by (simp add: formatToYYYYMMDD_def pad2_def digit_def)
  have inj: ?inj by (simp add: formatToYYYYMMDD_def pad2_def digit_def)
  have n1: "nextDay ?d1 = \<lparr>fullYear = 2026, monthIx = 0, dayOfMonth = 1\<rparr>"
    "nextDay \<lparr>fullYear = 2026, monthIx = 0, dayOfMonth = 1\<rparr> =
       \<lparr>fullYear = 2026, monthIx = 0, dayOfMonth = 2\<rparr>"
    by (simp_all add: nextDay_def daysInMonthOf_def)
  have n2: "nextDay ?d2 = \<lparr>fullYear = 2024, monthIx = 1, dayOfMonth = 29\<rparr>"
    "nextDay \<lparr>fullYear = 2024, monthIx = 1, dayOfMonth = 29\<rparr> =
       \<lparr>fullYear = 2024, monthIx = 2, dayOfMonth = 1\<rparr>"
    by (simp_all add: nextDay_def daysInMonthOf_def isLeapYear_def)
  have f3: "formatToYYYYMMDD \<lparr>fullYear = 2026, monthIx = 0, dayOfMonth = 1\<rparr> = ''2026-01-01''"
    "formatToYYYYMMDD \<lparr>fullYear = 2026, monthIx = 0, dayOfMonth = 2\<rparr> = ''2026-01-02''"
    "formatToYYYYMMDD \<lparr>fullYear = 2024, monthIx = 1, dayOfMonth = 29\<rparr> = ''2024-02-29''"
    "formatToYYYYMMDD \<lparr>fullYear = 2024, monthIx = 2, dayOfMonth = 1\<rparr> = ''2024-03-01''"
    by (simp_all add: formatToYYYYMMDD_def pad2_def digit_def)
  note main = seed_on_unreadable_storage [OF v1 v2, of "\<lambda>s. None" formatToYYYYMMDD ?texts ?d1 ?d1 ?d1]
  note other = seed_on_unreadable_storage [OF v2 v1, of "\<lambda>s. None" formatToYYYYMMDD ?texts ?d2 ?d2 ?d2]
  from main have l1: "loadBookings (\<lambda>s. None) formatToYYYYMMDD ?texts ?d1 ?d1 ?d1 ReadThrows =
      generateInitialBookings formatToYYYYMMDD ?texts ?d1 ?d1 ?d1"
    by blast
  from main have g1: "generateInitialBookings formatToYYYYMMDD ?texts ?d1 ?d1 ?d1 =
     [\<lparr>date = formatToYYYYMMDD ?d1, time = ''09:00'', endTime = ''11:00'',
       department = department1 ?texts, notesB = notes1 ?texts, idB = ''1'', hallId = AlWaha\<rparr>,
      \<lparr>date = formatToYYYYMMDD (nextDay ?d1), time = ''11:00'', endTime = ''12:00'',
       department = department2 ?texts, notesB = notes2 ?texts, idB = ''2'', hallId = AlWaha\<rparr>,
      \<lparr>date = formatToYYYYMMDD (nextDay (nextDay ?d1)), time = ''14:00'', endTime = ''16:00'',
       department = department3 ?texts, notesB = notes3 ?texts, idB = ''3'', hallId = AlDana\<rparr>]"
    by blast
  from other have g2: "generateInitialBookings formatToYYYYMMDD ?texts ?d2 ?d2 ?d2 =
     [\<lparr>date = formatToYYYYMMDD ?d2, time = ''09:00'', endTime = ''11:00'',
       department = department1 ?texts, notesB = notes1 ?texts, idB = ''1'', hallId = AlWaha\<rparr>,
      \<lparr>date = formatToYYYYMMDD (nextDay ?d2), time = ''11:00'', endTime = ''12:00'',
       department = department2 ?texts, notesB = notes2 ?texts, idB = ''2'', hallId = AlWaha\<rparr>,
      \<lparr>date = formatToYYYYMMDD (nextDay (nextDay ?d2)), time = ''14:00'', endTime = ''16:00'',
       department = department3 ?texts, notesB = notes3 ?texts, idB = ''3'', hallId = AlDana\<rparr>]"
    by blast
  have load: ?load
    unfolding l1 g1 n1 f1 f3 by (simp only: SeedTexts.simps)
  have seed2: ?seed2
    unfolding g2 n2 f2 f3 by (simp only: SeedTexts.simps)
  from main inj have "(generateInitialBookings formatToYYYYMMDD ?texts ?d1 ?d1 ?d1 =
      generateInitialBookings formatToYYYYMMDD ?texts ?d2 ?d2 ?d2) = (?d1 = ?d2)"
    by blast
  moreover have "?d1 \<noteq> ?d2" by simp
  ultimately have differ: ?differ by blast
  from v1 v2 inj load seed2 differ show ?thesis by blast
qed

text \<open>
  With the format \<^verbatim>\<open>YYYY-MM-DD\<close>, two dates of the calendar in the years 0 to 9999 have
  the same seed only when they are the same date.
\<close>

lemma seed_same_only_on_same_day:
  assumes "validDate d" "validDate d'"
    and "0 \<le> fullYear d" "fullYear d < 10000" "0 \<le> fullYear d'" "fullYear d' < 10000"
  shows "(generateInitialBookings formatToYYYYMMDD texts d d d =
          generateInitialBookings formatToYYYYMMDD texts d' d' d') = (d = d')"
proof
  assume "generateInitialBookings formatToYYYYMMDD texts d d d =
          generateInitialBookings formatToYYYYMMDD texts d' d' d'"
  then have "formatToYYYYMMDD d = formatToYYYYMMDD d'"
    by (simp add: generateInitialBookings_def Let_def)
  from formatToYYYYMMDD_inj [OF this assms] show "d = d'" .
next
  assume "d = d'"
  then show "generateInitialBookings formatToYYYYMMDD texts d d d =
          generateInitialBookings formatToYYYYMMDD texts d' d' d'" by simp
qed

text \<open>
  Claim C9, as it is stated, fails: with nothing stored, a load on 10 March 2025 and a
  load on 11 March 2025 give different seeds.
\<close>

theorem seed_depends_on_the_day:
  "loadBookings (\<lambda>s. None) formatToYYYYMMDD
     \<lparr>department1 = ''HR'', notes1 = [], department2 = ''IT'', notes2 = [],
      department3 = ''Marketing'', notes3 = []\<rparr>
     \<lparr>fullYear = 2025, monthIx = 2, dayOfMonth = 10\<rparr>
     \<lparr>fullYear = 2025, monthIx = 2, dayOfMonth = 10\<rparr>
     \<lparr>fullYear = 2025, monthIx = 2, dayOfMonth = 10\<rparr> Absent
   \<noteq>
   loadBookings (\<lambda>s. None) formatToYYYYMMDD
     \<lparr>department1 = ''HR'', notes1 = [], department2 = ''IT'', notes2 = [],
      department3 = ''Marketing'', notes3 = []\<rparr>
     \<lparr>fullYear = 2025, monthIx = 2, dayOfMonth = 11\<rparr>
     \<lparr>fullYear = 2025, monthIx = 2, dayOfMonth = 11\<rparr>
     \<lparr>fullYear = 2025, monthIx = 2, dayOfMonth = 11\<rparr> Absent"
  by (simp add: loadBookings_def generateInitialBookings_def Let_def formatToYYYYMMDD_def
      pad2_def digit_def)

end
